theory Spec2Isabelle
  imports Complex_Main "HOL-Library.Signed_Division"
begin

section \<open>Discrete Fr\'echet distance oscilloscope (frechet\_space.ino)\<close>

text \<open>
  The sketch samples four analog channels into ring buffers and, once per tick, computes the
  discrete Fr\'echet distance of the most recent window of each pair of adjacent channels by a
  memoised recursion over a statically allocated table.

  Conventions of the embedding.
  \<^item> A C \<^verbatim>\<open>int\<close> is an \<^typ>\<open>int\<close>: with \<open>0 \<le> dataIndex < HISTORY_SIZE\<close>, which every tick
    preserves, and the windows the orchestrator passes, every integer the sketch computes
    lies between \<open>-20\<close> and \<open>100\<close>, far from the ends of the 32-bit range.
    C's \<^verbatim>\<open>%\<close> truncates towards zero and is written \<open>smod\<close>.
  \<^item> A finite \<^verbatim>\<open>float\<close> is a \<^typ>\<open>real\<close>; the one non-finite value the sketch produces,
    \<^verbatim>\<open>INFINITY\<close>, is a constructor of its own in the type \<open>cfloat\<close> of table cells and results.
  \<^item> Global arrays are lists (\<open>channelData\<close>, \<open>frechetDistances\<close>, \<open>instantRMS\<close>) and, for the
    two-dimensional table \<open>dpTable\<close>, a store from index pairs to cells.
  \<^item> Every function that writes a global takes the state and returns the new one.
\<close>

subsection \<open>Constants\<close>

definition NUM_CHANNELS :: nat where
  "NUM_CHANNELS = 4"

definition HISTORY_SIZE :: int where
  "HISTORY_SIZE = 50"

definition FRECHET_WINDOW :: int where
  "FRECHET_WINDOW = 20"

subsection \<open>Floats with infinity, and the sketch's own max and min\<close>

datatype cfloat = Fin real | INFINITY

fun less_f :: "cfloat \<Rightarrow> cfloat \<Rightarrow> bool" where
  "less_f (Fin a) (Fin b) = (a < b)"
| "less_f (Fin a) INFINITY = True"
| "less_f INFINITY b = False"

text \<open>\<^verbatim>\<open>float max(float a, float b) { return (a > b) ? a : b; }\<close>\<close>

definition max_f :: "cfloat \<Rightarrow> cfloat \<Rightarrow> cfloat" where
  "max_f a b = (if less_f b a then a else b)"

text \<open>\<^verbatim>\<open>float min(float a, float b) { return (a < b) ? a : b; }\<close>\<close>

definition min_f :: "cfloat \<Rightarrow> cfloat \<Rightarrow> cfloat" where
  "min_f a b = (if less_f a b then a else b)"

text \<open>The test \<^verbatim>\<open>dpTable[i][j] >= 0\<close> of the memo check.\<close>

fun ge0 :: "cfloat \<Rightarrow> bool" where
  "ge0 (Fin a) = (0 \<le> a)"
| "ge0 INFINITY = True"

text \<open>\<^verbatim>\<open>inline float euclideanDistance(float a, float b) { return abs(a - b); }\<close>\<close>

definition euclideanDistance :: "real \<Rightarrow> real \<Rightarrow> real" where
  "euclideanDistance a b = \<bar>a - b\<bar>"

subsection \<open>The memoised recurrence\<close>

type_synonym table = "int \<Rightarrow> int \<Rightarrow> cfloat"

definition set_cell :: "table \<Rightarrow> int \<Rightarrow> int \<Rightarrow> cfloat \<Rightarrow> table" where
  "set_cell dp i j v = dp(i := (dp i)(j := v))"

text \<open>
  \<open>frechetDP\<close> reads and writes the global \<open>dpTable\<close>: the table is an argument and is returned
  with the result. The three recursive calls of the main recurrence run in the source's order,
  each on the table left by the one before. The parameter \<open>windowSize\<close> is passed along and
  never read, as in the source.
\<close>

function frechetDP ::
  "real list \<Rightarrow> real list \<Rightarrow> int \<Rightarrow> int \<Rightarrow> int \<Rightarrow> table \<Rightarrow> cfloat \<times> table" where
  "frechetDP curve1 curve2 i j windowSize dp =
     (if i < 0 \<or> j < 0 then (INFINITY, dp)
      else if ge0 (dp i j) then (dp i j, dp)
      else
        let pointDistance = Fin (euclideanDistance (curve1 ! nat i) (curve2 ! nat j)) in
        if i = 0 \<and> j = 0 then
          (pointDistance, set_cell dp i j pointDistance)
        else if 0 < i \<and> j = 0 then
          (case frechetDP curve1 curve2 (i - 1) 0 windowSize dp of (r, dp1) \<Rightarrow>
             let v = max_f r pointDistance in (v, set_cell dp1 i j v))
        else if i = 0 \<and> 0 < j then
          (case frechetDP curve1 curve2 0 (j - 1) windowSize dp of (r, dp1) \<Rightarrow>
             let v = max_f r pointDistance in (v, set_cell dp1 i j v))
        else
          (case frechetDP curve1 curve2 (i - 1) j windowSize dp of (option1, dp1) \<Rightarrow>
           case frechetDP curve1 curve2 (i - 1) (j - 1) windowSize dp1 of (option2, dp2) \<Rightarrow>
           case frechetDP curve1 curve2 i (j - 1) windowSize dp2 of (option3, dp3) \<Rightarrow>
             let v = max_f (min_f option1 (min_f option2 option3)) pointDistance
             in (v, set_cell dp3 i j v)))"
  by pat_completeness auto
termination
  by (relation "measure (\<lambda>(curve1, curve2, i, j, windowSize, dp). nat i + nat j)") auto

declare frechetDP.simps [simp del]

text \<open>
  The same recurrence with the depth of the call stack made explicit: a call needs one frame,
  and each recursive call runs with one frame less. \<open>None\<close> means the stack budget was
  exhausted before the call returned.
\<close>

fun frechetDP_depth ::
  "nat \<Rightarrow> real list \<Rightarrow> real list \<Rightarrow> int \<Rightarrow> int \<Rightarrow> int \<Rightarrow> table \<Rightarrow> (cfloat \<times> table) option" where
  "frechetDP_depth 0 curve1 curve2 i j windowSize dp = None"
| "frechetDP_depth (Suc depth) curve1 curve2 i j windowSize dp =
     (if i < 0 \<or> j < 0 then Some (INFINITY, dp)
      else if ge0 (dp i j) then Some (dp i j, dp)
      else
        let pointDistance = Fin (euclideanDistance (curve1 ! nat i) (curve2 ! nat j)) in
        if i = 0 \<and> j = 0 then
          Some (pointDistance, set_cell dp i j pointDistance)
        else if 0 < i \<and> j = 0 then
          (case frechetDP_depth depth curve1 curve2 (i - 1) 0 windowSize dp of
             None \<Rightarrow> None
           | Some (r, dp1) \<Rightarrow>
               let v = max_f r pointDistance in Some (v, set_cell dp1 i j v))
        else if i = 0 \<and> 0 < j then
          (case frechetDP_depth depth curve1 curve2 0 (j - 1) windowSize dp of
             None \<Rightarrow> None
           | Some (r, dp1) \<Rightarrow>
               let v = max_f r pointDistance in Some (v, set_cell dp1 i j v))
        else
          (case frechetDP_depth depth curve1 curve2 (i - 1) j windowSize dp of
             None \<Rightarrow> None
           | Some (option1, dp1) \<Rightarrow>
          (case frechetDP_depth depth curve1 curve2 (i - 1) (j - 1) windowSize dp1 of
             None \<Rightarrow> None
           | Some (option2, dp2) \<Rightarrow>
          (case frechetDP_depth depth curve1 curve2 i (j - 1) windowSize dp2 of
             None \<Rightarrow> None
           | Some (option3, dp3) \<Rightarrow>
               let v = max_f (min_f option1 (min_f option2 option3)) pointDistance
               in Some (v, set_cell dp3 i j v)))))"

subsection \<open>One distance computation\<close>

text \<open>
  The reset of the active region of the table, lines 121--126 of \<open>discreteFrechetDistance\<close>:
  \<^verbatim>\<open>for (i < actualWindow) for (j < actualWindow) dpTable[i][j] = -1.0;\<close>
\<close>

definition initTable :: "int \<Rightarrow> table \<Rightarrow> table" where
  "initTable actualWindow dp =
     fold (\<lambda>i dp. fold (\<lambda>j dp. set_cell dp i j (Fin (- 1))) [0..actualWindow - 1] dp)
       [0..actualWindow - 1] dp"

text \<open>
  The engine proper is the second half of \<open>discreteFrechetDistance\<close> (lines 121--129): reset
  the table, then evaluate the recurrence at the last cell.
\<close>

definition frechetEngine :: "real list \<Rightarrow> real list \<Rightarrow> int \<Rightarrow> table \<Rightarrow> cfloat \<times> table" where
  "frechetEngine curve1 curve2 actualWindow dp =
     frechetDP curve1 curve2 (actualWindow - 1) (actualWindow - 1) actualWindow
       (initTable actualWindow dp)"

subsection \<open>Program state\<close>

text \<open>
  The globals of the sketch. \<open>lastSample\<close> and \<open>autoOutput\<close> only gate the timing of a tick and
  the serial report and are left out.
\<close>

record state =
  channelData :: "real list list"
  instantRMS :: "real list"
  frechetDistances :: "cfloat list"
  dataIndex :: int
  dpTable :: table

text \<open>
  The state after \<open>setup()\<close>: the loops of \<open>setup\<close> zero the three arrays; \<open>dataIndex\<close> has its
  initialiser \<open>0\<close> and \<open>dpTable\<close>, a global without one, is zero-initialised.
\<close>

definition setup_state :: state where
  "setup_state =
     \<lparr>channelData = replicate NUM_CHANNELS (replicate (nat HISTORY_SIZE) 0),
      instantRMS = replicate NUM_CHANNELS 0,
      frechetDistances = replicate NUM_CHANNELS (Fin 0),
      dataIndex = 0,
      dpTable = (\<lambda>i j. Fin 0)\<rparr>"

subsection \<open>Window extraction and \<open>discreteFrechetDistance\<close>\<close>

text \<open>Line 113: \<^verbatim>\<open>int actualWindow = min(windowSize, min(FRECHET_WINDOW, HISTORY_SIZE));\<close>\<close>

definition actualWindow :: "int \<Rightarrow> int" where
  "actualWindow windowSize = min windowSize (min FRECHET_WINDOW HISTORY_SIZE)"

text \<open>
  Line 116: the sum that is reduced, and the index
  \<^verbatim>\<open>(dataIndex - actualWindow + 1 + i + HISTORY_SIZE) % HISTORY_SIZE\<close>.
\<close>

definition ringDividend :: "int \<Rightarrow> int \<Rightarrow> int \<Rightarrow> int" where
  "ringDividend di aw i = di - aw + 1 + i + HISTORY_SIZE"

definition ringIndex :: "int \<Rightarrow> int \<Rightarrow> int \<Rightarrow> int" where
  "ringIndex di aw i = ringDividend di aw i smod HISTORY_SIZE"

text \<open>Lines 115--119, for one channel: the local array \<open>curve1\<close> (or \<open>curve2\<close>) after the loop.\<close>

definition extractCurve :: "state \<Rightarrow> nat \<Rightarrow> int \<Rightarrow> real list" where
  "extractCurve st ch aw =
     map (\<lambda>i. channelData st ! ch ! nat (ringIndex (dataIndex st) aw i)) [0..aw - 1]"

definition discreteFrechetDistance :: "state \<Rightarrow> nat \<Rightarrow> nat \<Rightarrow> int \<Rightarrow> cfloat \<times> state" where
  "discreteFrechetDistance st ch1 ch2 windowSize =
     (let aw = actualWindow windowSize;
          curve1 = extractCurve st ch1 aw;
          curve2 = extractCurve st ch2 aw
      in case frechetEngine curve1 curve2 aw (dpTable st) of
           (r, dp) \<Rightarrow> (r, st\<lparr>dpTable := dp\<rparr>))"

subsection \<open>The orchestrator and the tick\<close>

text \<open>Line 159: \<^verbatim>\<open>int window = min(FRECHET_WINDOW, min(20, dataIndex + 1));\<close>\<close>

definition orchestratorWindow :: "state \<Rightarrow> int" where
  "orchestratorWindow st = min FRECHET_WINDOW (min 20 (dataIndex st + 1))"

definition calculateDiscreteFrechetDistances :: "state \<Rightarrow> state" where
  "calculateDiscreteFrechetDistances st =
     (let window = orchestratorWindow st in
      if window < 3 then
        fold (\<lambda>ch st. st\<lparr>frechetDistances := (frechetDistances st)[ch := Fin 0]\<rparr>)
          [0..<NUM_CHANNELS] st
      else
        let st1 =
              fold (\<lambda>ch st.
                      case discreteFrechetDistance st ch (ch + 1) window of
                        (r, st') \<Rightarrow> st'\<lparr>frechetDistances := (frechetDistances st')[ch := r]\<rparr>)
                [0..<NUM_CHANNELS - 1] st
        in st1\<lparr>frechetDistances := (frechetDistances st1)[NUM_CHANNELS - 1 := Fin 0]\<rparr>)"

text \<open>Line 77: \<^verbatim>\<open>float voltage = (rawValue / 1023.0) * 5.0;\<close>\<close>

definition voltage :: "int \<Rightarrow> real" where
  "voltage rawValue = (real_of_int rawValue / 1023) * 5"

text \<open>
  \<open>sampleChannels\<close>: the argument \<open>analogRead\<close> gives, for each channel, the raw reading of its
  pin on this tick.
\<close>

definition sampleChannels :: "(nat \<Rightarrow> int) \<Rightarrow> state \<Rightarrow> state" where
  "sampleChannels analogRead st =
     fold (\<lambda>ch st.
             st\<lparr>channelData :=
                  (channelData st)[ch :=
                     (channelData st ! ch)[nat (dataIndex st) := voltage (analogRead ch)]]\<rparr>)
       [0..<NUM_CHANNELS] st"

definition calculateRMS :: "state \<Rightarrow> state" where
  "calculateRMS st =
     fold (\<lambda>ch st.
             let window = min 5 HISTORY_SIZE;
                 sumSquares =
                   fold (\<lambda>i s.
                           let idx = (dataIndex st - i + HISTORY_SIZE) smod HISTORY_SIZE;
                               v = channelData st ! ch ! nat idx
                           in s + v * v)
                     [0..window - 1] 0
             in st\<lparr>instantRMS := (instantRMS st)[ch := sqrt (sumSquares / real_of_int window)]\<rparr>)
       [0..<NUM_CHANNELS] st"

text \<open>
  One tick: the body of the \<^verbatim>\<open>if (currentTime - lastSample >= SAMPLE_RATE_MS)\<close> of \<open>loop()\<close>,
  lines 59--68, without the serial output.
\<close>

definition loop_tick :: "(nat \<Rightarrow> int) \<Rightarrow> state \<Rightarrow> state" where
  "loop_tick analogRead st =
     (let st1 = sampleChannels analogRead st;
          st2 = calculateRMS st1;
          st3 = calculateDiscreteFrechetDistances st2
      in st3\<lparr>dataIndex := (dataIndex st3 + 1) smod HISTORY_SIZE\<rparr>)"

text \<open>A run of the sketch: one tick per element of the list of readings, oldest first.\<close>

definition run_ticks :: "(nat \<Rightarrow> int) list \<Rightarrow> state \<Rightarrow> state" where
  "run_ticks readings st = fold loop_tick readings st"

text \<open>
  The state in which the orchestrator runs on the tick that follows the ticks \<open>earlier\<close>: the
  new reading has been stored and \<open>dataIndex\<close> still points at it.
\<close>

definition tick_state :: "(nat \<Rightarrow> int) list \<Rightarrow> (nat \<Rightarrow> int) \<Rightarrow> state" where
  "tick_state earlier analogRead =
     calculateRMS (sampleChannels analogRead (run_ticks earlier setup_state))"

subsection \<open>The recurrence as the specification words it\<close>

definition d_spec :: "real \<Rightarrow> real \<Rightarrow> real" where
  "d_spec x y = \<bar>x - y\<bar>"

fun F_spec :: "real list \<Rightarrow> real list \<Rightarrow> nat \<Rightarrow> nat \<Rightarrow> real" where
  "F_spec A B 0 0 = d_spec (A ! 0) (B ! 0)"
| "F_spec A B (Suc i) 0 = max (F_spec A B i 0) (d_spec (A ! Suc i) (B ! 0))"
| "F_spec A B 0 (Suc j) = max (F_spec A B 0 j) (d_spec (A ! 0) (B ! Suc j))"
| "F_spec A B (Suc i) (Suc j) =
     max (min (F_spec A B i (Suc j)) (min (F_spec A B i j) (F_spec A B (Suc i) j)))
         (d_spec (A ! Suc i) (B ! Suc j))"

text \<open>
  The memo invariant: inside the active region, a cell that passes the memo check holds the
  value of the recurrence.
\<close>

definition memo_ok :: "real list \<Rightarrow> real list \<Rightarrow> int \<Rightarrow> table \<Rightarrow> bool" where
  "memo_ok A B n dp \<longleftrightarrow>
     (\<forall>a b. 0 \<le> a \<and> a < n \<and> 0 \<le> b \<and> b < n \<and> ge0 (dp a b) \<longrightarrow>
        dp a b = Fin (F_spec A B (nat a) (nat b)))"

subsection \<open>Concrete inputs\<close>

text \<open>
  A reading that is the same on every pin, one that differs from pin to pin, and a table full
  of stale non-negative cells.
\<close>

definition steady_reading :: "nat \<Rightarrow> int" where
  "steady_reading ch = 512"

definition ramp_reading :: "nat \<Rightarrow> int" where
  "ramp_reading ch = 256 * int ch"

definition stale_table :: table where
  "stale_table i j = Fin 7"

subsection \<open>Lemmas about the table and the recurrence\<close>

lemma fold_row: "fold (\<lambda>j dp. set_cell dp i j v) js dp a b = (if a = i \<and> b \<in> set js then v else dp a b)"
  by (induction js arbitrary: dp) (auto simp: set_cell_def)

lemma fold_rows:
  "fold (\<lambda>i dp. fold (\<lambda>j dp. set_cell dp i j v) js dp) is dp a b =
     (if a \<in> set is \<and> b \<in> set js then v else dp a b)"
  by (induction "is" arbitrary: dp) (auto simp: fold_row)

lemma initTable_cell:
  "initTable n dp a b = (if 0 \<le> a \<and> a < n \<and> 0 \<le> b \<and> b < n then Fin (- 1) else dp a b)"
  unfolding initTable_def fold_rows by auto

lemma F_spec_nonneg: "0 \<le> F_spec A B i j"
  by (induction A B i j rule: F_spec.induct) (auto simp: d_spec_def max_def)

lemma max_f_Fin [simp]: "max_f (Fin a) (Fin b) = Fin (max a b)"
  by (simp add: max_f_def max_def)

lemma min_f_Fin [simp]: "min_f (Fin a) (Fin b) = Fin (min a b)"
  by (simp add: min_f_def min_def)

lemma memo_ok_set:
  "memo_ok A B n dp \<Longrightarrow> v = Fin (F_spec A B (nat i) (nat j)) \<Longrightarrow> memo_ok A B n (set_cell dp i j v)"
  by (auto simp: memo_ok_def set_cell_def)


lemma F_spec_row:
  "0 < i \<Longrightarrow> F_spec A B (nat i) 0 = max (F_spec A B (nat (i - 1)) 0) (d_spec (A ! nat i) (B ! 0))"
  by (cases "nat i") (auto simp: nat_diff_distrib)

lemma F_spec_col:
  "0 < j \<Longrightarrow> F_spec A B 0 (nat j) = max (F_spec A B 0 (nat (j - 1))) (d_spec (A ! 0) (B ! nat j))"
  by (cases "nat j") (auto simp: nat_diff_distrib)

lemma F_spec_inner:
  "0 < i \<Longrightarrow> 0 < j \<Longrightarrow>
   F_spec A B (nat i) (nat j) =
     max (min (F_spec A B (nat (i - 1)) (nat j))
              (min (F_spec A B (nat (i - 1)) (nat (j - 1))) (F_spec A B (nat i) (nat (j - 1)))))
         (d_spec (A ! nat i) (B ! nat j))"
  by (cases "nat i"; cases "nat j") (auto simp: nat_diff_distrib)

lemma frechetDP_memo:
  assumes "0 \<le> i" "i < n" "0 \<le> j" "j < n" "memo_ok A B n dp"
  shows "fst (frechetDP A B i j w dp) = Fin (F_spec A B (nat i) (nat j)) \<and>
         memo_ok A B n (snd (frechetDP A B i j w dp))"
  using assms
proof (induction A B i j w dp rule: frechetDP.induct)
  case (1 A B i j w dp)
  let ?pd = "Fin (euclideanDistance (A ! nat i) (B ! nat j))"
  show ?case
  proof (cases "ge0 (dp i j)")
    case True
    with "1.prems" show ?thesis
      by (subst (1 2) frechetDP.simps) (auto simp: memo_ok_def)
  next
    case unset: False
    consider (origin) "i = 0" "j = 0" | (row) "0 < i" "j = 0" | (col) "i = 0" "0 < j"
      | (inner) "0 < i" "0 < j"
      using "1.prems" by linarith
    then show ?thesis
    proof cases
      case origin
      with unset "1.prems" show ?thesis
        by (subst (1 2) frechetDP.simps)
           (auto simp: Let_def euclideanDistance_def d_spec_def intro!: memo_ok_set)
    next
      case row
      obtain r dp1 where call: "frechetDP A B (i - 1) 0 w dp = (r, dp1)"
        by (cases "frechetDP A B (i - 1) 0 w dp")
      have "fst (frechetDP A B (i - 1) 0 w dp) = Fin (F_spec A B (nat (i - 1)) (nat 0)) \<and>
            memo_ok A B n (snd (frechetDP A B (i - 1) 0 w dp))"
        using unset row "1.prems" by (intro "1.IH"(1)) auto
      with call have r: "r = Fin (F_spec A B (nat (i - 1)) 0)" and ok: "memo_ok A B n dp1"
        by simp_all
      have eq: "frechetDP A B i j w dp = (max_f r ?pd, set_cell dp1 i j (max_f r ?pd))"
        using unset row call by (subst frechetDP.simps) (simp add: Let_def)
      show ?thesis
        unfolding eq using row r ok
        by (auto simp: F_spec_row euclideanDistance_def d_spec_def intro!: memo_ok_set)
    next
      case col
      obtain r dp1 where call: "frechetDP A B 0 (j - 1) w dp = (r, dp1)"
        by (cases "frechetDP A B 0 (j - 1) w dp")
      have "fst (frechetDP A B 0 (j - 1) w dp) = Fin (F_spec A B (nat 0) (nat (j - 1))) \<and>
            memo_ok A B n (snd (frechetDP A B 0 (j - 1) w dp))"
        using unset col "1.prems" by (intro "1.IH"(2)) auto
      with call have r: "r = Fin (F_spec A B 0 (nat (j - 1)))" and ok: "memo_ok A B n dp1"
        by simp_all
      have eq: "frechetDP A B i j w dp = (max_f r ?pd, set_cell dp1 i j (max_f r ?pd))"
        using unset col call by (subst frechetDP.simps) (simp add: Let_def)
      show ?thesis
        unfolding eq using col r ok
        by (auto simp: F_spec_col euclideanDistance_def d_spec_def intro!: memo_ok_set)
    next
      case inner
      obtain o1 dp1 where c1: "frechetDP A B (i - 1) j w dp = (o1, dp1)"
        by (cases "frechetDP A B (i - 1) j w dp")
      obtain o2 dp2 where c2: "frechetDP A B (i - 1) (j - 1) w dp1 = (o2, dp2)"
        by (cases "frechetDP A B (i - 1) (j - 1) w dp1")
      obtain o3 dp3 where c3: "frechetDP A B i (j - 1) w dp2 = (o3, dp3)"
        by (cases "frechetDP A B i (j - 1) w dp2")
      have "fst (frechetDP A B (i - 1) j w dp) = Fin (F_spec A B (nat (i - 1)) (nat j)) \<and>
            memo_ok A B n (snd (frechetDP A B (i - 1) j w dp))"
        using unset inner "1.prems" by (intro "1.IH"(3)) auto
      with c1 have o1: "o1 = Fin (F_spec A B (nat (i - 1)) (nat j))" and ok1: "memo_ok A B n dp1"
        by simp_all
      have "fst (frechetDP A B (i - 1) (j - 1) w dp1) = Fin (F_spec A B (nat (i - 1)) (nat (j - 1))) \<and>
            memo_ok A B n (snd (frechetDP A B (i - 1) (j - 1) w dp1))"
        using unset inner "1.prems" c1 ok1 by (intro "1.IH"(4)[of _ o1 dp1]) auto
      with c2 have o2: "o2 = Fin (F_spec A B (nat (i - 1)) (nat (j - 1)))"
        and ok2: "memo_ok A B n dp2"
        by simp_all
      have "fst (frechetDP A B i (j - 1) w dp2) = Fin (F_spec A B (nat i) (nat (j - 1))) \<and>
            memo_ok A B n (snd (frechetDP A B i (j - 1) w dp2))"
        using unset inner "1.prems" c1 c2 ok2 by (intro "1.IH"(5)[of _ o1 dp1 o2 dp2]) auto
      with c3 have o3: "o3 = Fin (F_spec A B (nat i) (nat (j - 1)))" and ok3: "memo_ok A B n dp3"
        by simp_all
      let ?v = "max_f (min_f o1 (min_f o2 o3)) ?pd"
      have eq: "frechetDP A B i j w dp = (?v, set_cell dp3 i j ?v)"
        using unset inner c1 c2 c3 by (subst frechetDP.simps) (simp add: Let_def)
      show ?thesis
        unfolding eq using inner o1 o2 o3 ok3
        by (auto simp: F_spec_inner euclideanDistance_def d_spec_def intro!: memo_ok_set)
    qed
  qed
qed


lemma memo_ok_initTable: "memo_ok A B n (initTable n dp)"
  by (auto simp: memo_ok_def initTable_cell)

lemma frechetEngine_value:
  assumes "1 \<le> W"
  shows "fst (frechetEngine A B W dp) = Fin (F_spec A B (nat (W - 1)) (nat (W - 1)))"
  unfolding frechetEngine_def
  using frechetDP_memo [of "W - 1" W "W - 1" A B "initTable W dp" W] assms memo_ok_initTable
  by simp

lemma frechetEngine_empty: "W \<le> 0 \<Longrightarrow> fst (frechetEngine A B W dp) = INFINITY"
  unfolding frechetEngine_def by (subst frechetDP.simps) simp

lemma d_spec_sym: "d_spec x y = d_spec y x"
  by (simp add: d_spec_def abs_minus_commute)

lemma F_spec_sym: "F_spec A B i j = F_spec B A j i"
proof (induction A B i j rule: F_spec.induct)
  case (4 A B i j)
  then show ?case
    by (simp add: d_spec_sym [of "A ! Suc i"] min.commute min.left_commute)
qed (simp_all add: d_spec_sym)

lemma F_spec_diag: "F_spec A A i i = 0"
proof (induction i)
  case 0
  show ?case by (simp add: d_spec_def)
next
  case (Suc i)
  have "min (F_spec A A i (Suc i)) (min 0 (F_spec A A (Suc i) i)) = 0"
    using F_spec_nonneg [of A A i "Suc i"] F_spec_nonneg [of A A "Suc i" i] by simp
  with Suc show ?case by (simp add: d_spec_def)
qed

lemma F_spec_example: "F_spec [1, 2, 3] [1, 2, 5] 2 2 = 2"
  by (simp add: numeral_2_eq_2 d_spec_def)

lemma frechetDP_depth_enough:
  "nat i + nat j < depth \<Longrightarrow>
   frechetDP_depth depth curve1 curve2 i j windowSize dp =
     Some (frechetDP curve1 curve2 i j windowSize dp)"
proof (induction depth arbitrary: i j dp)
  case 0
  then show ?case by simp
next
  case (Suc depth)
  show ?case
  proof (cases "i < 0 \<or> j < 0 \<or> ge0 (dp i j) \<or> (i = 0 \<and> j = 0)")
    case True
    then show ?thesis
      by (subst frechetDP.simps) (auto simp: Let_def)
  next
    case False
    then consider (row) "0 < i" "j = 0" | (col) "i = 0" "0 < j" | (inner) "0 < i" "0 < j"
      by linarith
    then show ?thesis
    proof cases
      case row
      with Suc.prems have "nat (i - 1) + nat 0 < depth" by simp
      from Suc.IH [OF this] False row show ?thesis
        by (subst frechetDP.simps) (simp add: Let_def split: prod.splits)
    next
      case col
      with Suc.prems have "nat 0 + nat (j - 1) < depth" by simp
      from Suc.IH [OF this] False col show ?thesis
        by (subst frechetDP.simps) (simp add: Let_def split: prod.splits)
    next
      case inner
      with Suc.prems have a: "nat (i - 1) + nat j < depth"
        and b: "nat (i - 1) + nat (j - 1) < depth" and c: "nat i + nat (j - 1) < depth"
        by linarith+
      from Suc.IH [OF a] Suc.IH [OF b] Suc.IH [OF c] False inner show ?thesis
        by (subst frechetDP.simps) (simp add: Let_def split: prod.splits)
    qed
  qed
qed

subsection \<open>The engine computes the recurrence\<close>

text \<open>
  Claim C1. For curves \<open>A\<close>, \<open>B\<close> of equal length \<open>W \<ge> 1\<close>, the engine (table reset followed by
  the memoised recursion at the last cell) returns \<open>F(W-1, W-1)\<close> of the table that the
  specification defines by \<open>F(0,0) = d(A[0],B[0])\<close>, \<open>F(i,0) = max(F(i-1,0), d(A[i],B[0]))\<close>,
  \<open>F(0,j) = max(F(0,j-1), d(A[0],B[j]))\<close> and
  \<open>F(i,j) = max(min(F(i-1,j), F(i-1,j-1), F(i,j-1)), d(A[i],B[j]))\<close>, with \<open>d(x,y) = |x - y|\<close>,
  whatever the shared table held before the call.
\<close>

theorem frechetEngine_recurrence:
  assumes "1 \<le> W" and "length A = nat W" and "length B = nat W"
  shows "fst (frechetEngine A B W dp) = Fin (F_spec A B (nat (W - 1)) (nat (W - 1)))"
  using assms(1) by (rule frechetEngine_value)

theorem frechetEngine_recurrence_witness:
  "fst (frechetEngine [0, 0] [1, 1] 2 stale_table) = Fin 1"
  using frechetEngine_recurrence [of 2 "[0, 0]" "[1, 1]" stale_table]
  by (simp add: d_spec_def)

text \<open>
  Claim C6. The engine is symmetric in its two curves: for equal-length curves \<open>A\<close> and \<open>B\<close>,
  \<open>engine(A,B) = engine(B,A)\<close>, also when the two calls find different contents in the table.
\<close>

theorem frechetEngine_symmetric:
  assumes "length A = nat W" and "length B = nat W"
  shows "fst (frechetEngine A B W dp) = fst (frechetEngine B A W dp')"
proof (cases "1 \<le> W")
  case True
  then show ?thesis
    by (simp add: frechetEngine_value F_spec_sym [of A B])
next
  case False
  then show ?thesis
    by (simp add: frechetEngine_empty)
qed

theorem frechetEngine_symmetric_witness:
  "fst (frechetEngine [1, 2, 3] [1, 2, 5] 3 stale_table) =
   fst (frechetEngine [1, 2, 5] [1, 2, 3] 3 (dpTable setup_state))"
  using frechetEngine_symmetric [of "[1, 2, 3]" 3 "[1, 2, 5]" stale_table "dpTable setup_state"]
  by simp

text \<open>
  Claim C7. For every curve \<open>A\<close> of length \<open>W \<ge> 1\<close>, the engine applied to \<open>A\<close> and itself
  returns \<open>0\<close>.
\<close>

theorem frechetEngine_identity:
  assumes "1 \<le> W" and "length A = nat W"
  shows "fst (frechetEngine A A W dp) = Fin 0"
  using assms(1) by (simp add: frechetEngine_value F_spec_diag)

theorem frechetEngine_identity_witness:
  "fst (frechetEngine [3, 1, 4] [3, 1, 4] 3 stale_table) = Fin 0"
  using frechetEngine_identity [of 3 "[3, 1, 4]" stale_table]
  by simp

text \<open>
  Claim C8. For the curves \<open>A = [1.0, 2.0, 3.0]\<close> and \<open>B = [1.0, 2.0, 5.0]\<close> with \<open>W = 3\<close>, the
  engine returns exactly \<open>2.0\<close>.
\<close>

theorem frechetEngine_example:
  "fst (frechetEngine [1, 2, 3] [1, 2, 5] 3 dp) = Fin 2"
  by (simp add: frechetEngine_value F_spec_example)

subsection \<open>Termination\<close>

text \<open>
  Claim C9. \<open>frechetDP\<close> terminates on every call: each recursive call strictly decreases
  \<open>i + j\<close> (the measure of the termination proof of \<open>frechetDP\<close>), a call with a negative
  index returns at once, and so a call stack of \<open>i + j + 1\<close> frames is enough for the call at
  \<open>(i, j)\<close> to return, with the result and the table of \<open>frechetDP\<close>.
\<close>

theorem frechetDP_terminates:
  "nat i + nat j < depth \<Longrightarrow>
   frechetDP_depth depth curve1 curve2 i j windowSize dp =
     Some (frechetDP curve1 curve2 i j windowSize dp)"
  by (rule frechetDP_depth_enough)

theorem frechetDP_terminates_witness:
  "frechetDP_depth 5 [1, 2, 3] [1, 2, 5] 2 2 3 (initTable 3 stale_table) =
     Some (frechetEngine [1, 2, 3] [1, 2, 5] 3 stale_table)"
  using frechetDP_terminates [of 2 2 5 "[1, 2, 3]" "[1, 2, 5]" 3 "initTable 3 stale_table"]
  by (simp add: frechetEngine_def)

subsection \<open>Independence of the table's history\<close>

text \<open>
  Claim C10. The result of a distance computation depends only on the channel data, the write
  cursor and the window: two invocations that agree on these return the same distance
  whatever the shared table holds when they start, because the reset sets every cell of the
  active region to the unset sentinel \<open>-1.0\<close> before the recursion reads any.
\<close>

theorem discreteFrechetDistance_deterministic:
  assumes "channelData st1 = channelData st2" and "dataIndex st1 = dataIndex st2"
  shows "fst (discreteFrechetDistance st1 ch1 ch2 windowSize) =
         fst (discreteFrechetDistance st2 ch1 ch2 windowSize) \<and>
         (\<forall>a b. 0 \<le> a \<and> a < actualWindow windowSize \<and> 0 \<le> b \<and> b < actualWindow windowSize \<longrightarrow>
            initTable (actualWindow windowSize) (dpTable st1) a b = Fin (- 1))"
proof -
  have curves: "extractCurve st1 ch aw = extractCurve st2 ch aw" for ch aw
    using assms by (simp add: extractCurve_def)
  have res: "fst (discreteFrechetDistance st ch1 ch2 windowSize) =
             fst (frechetEngine (extractCurve st ch1 (actualWindow windowSize))
                    (extractCurve st ch2 (actualWindow windowSize))
                    (actualWindow windowSize) (dpTable st))" for st
    by (simp add: discreteFrechetDistance_def Let_def split: prod.splits)
  have "fst (frechetEngine A B aw dp1) = fst (frechetEngine A B aw dp2)" for A B aw dp1 dp2
    by (cases "1 \<le> aw") (simp_all add: frechetEngine_value frechetEngine_empty)
  then show ?thesis
    by (simp add: res curves initTable_cell)
qed

theorem discreteFrechetDistance_deterministic_witness:
  "fst (discreteFrechetDistance setup_state 0 1 3) =
   fst (discreteFrechetDistance (setup_state\<lparr>dpTable := stale_table\<rparr>) 0 1 3)"
  using discreteFrechetDistance_deterministic
          [of setup_state "setup_state\<lparr>dpTable := stale_table\<rparr>" 0 1 3]
  by simp

subsection \<open>Lemmas about the state and the ring buffer\<close>

lemma fold_keeps:
  assumes "\<And>x s. P (f x s) = P s"
  shows "P (fold f xs s) = P s"
  using assms by (induction xs arbitrary: s) simp_all

lemma smod_nonneg: "0 \<le> a \<Longrightarrow> a smod HISTORY_SIZE = a mod HISTORY_SIZE"
  by (cases "a = 0") (simp_all add: smod_int_alt_def HISTORY_SIZE_def)

lemma sampleChannels_dataIndex [simp]: "dataIndex (sampleChannels r st) = dataIndex st"
  unfolding sampleChannels_def by (rule fold_keeps) simp

lemma sampleChannels_frechetDistances [simp]:
  "frechetDistances (sampleChannels r st) = frechetDistances st"
  unfolding sampleChannels_def by (rule fold_keeps) simp

lemma calculateRMS_channelData [simp]: "channelData (calculateRMS st) = channelData st"
  unfolding calculateRMS_def by (rule fold_keeps) (simp add: Let_def)

lemma calculateRMS_dataIndex [simp]: "dataIndex (calculateRMS st) = dataIndex st"
  unfolding calculateRMS_def by (rule fold_keeps) (simp add: Let_def)

lemma calculateRMS_frechetDistances [simp]:
  "frechetDistances (calculateRMS st) = frechetDistances st"
  unfolding calculateRMS_def by (rule fold_keeps) (simp add: Let_def)

lemma discreteFrechetDistance_state:
  "snd (discreteFrechetDistance st ch1 ch2 w) =
     st\<lparr>dpTable := snd (frechetEngine (extractCurve st ch1 (actualWindow w))
                          (extractCurve st ch2 (actualWindow w)) (actualWindow w) (dpTable st))\<rparr>"
  by (simp add: discreteFrechetDistance_def Let_def split: prod.splits)

lemma pair_step_channelData:
  "channelData (case discreteFrechetDistance st ch ch' w of
                  (r, st') \<Rightarrow> st'\<lparr>frechetDistances := (frechetDistances st')[ch := r]\<rparr>) =
   channelData st"
  using discreteFrechetDistance_state [of st ch ch' w]
  by (cases "discreteFrechetDistance st ch ch' w") simp

lemma pair_step_dataIndex:
  "dataIndex (case discreteFrechetDistance st ch ch' w of
                (r, st') \<Rightarrow> st'\<lparr>frechetDistances := (frechetDistances st')[ch := r]\<rparr>) =
   dataIndex st"
  using discreteFrechetDistance_state [of st ch ch' w]
  by (cases "discreteFrechetDistance st ch ch' w") simp

lemma pair_step_length:
  "length (frechetDistances (case discreteFrechetDistance st ch ch' w of
                (r, st') \<Rightarrow> st'\<lparr>frechetDistances := (frechetDistances st')[ch := r]\<rparr>)) =
   length (frechetDistances st)"
  using discreteFrechetDistance_state [of st ch ch' w]
  by (cases "discreteFrechetDistance st ch ch' w") simp

lemma orchestrator_channelData [simp]:
  "channelData (calculateDiscreteFrechetDistances st) = channelData st"
proof -
  have a: "channelData (fold (\<lambda>ch st. st\<lparr>frechetDistances := (frechetDistances st)[ch := Fin 0]\<rparr>) xs st)
           = channelData st" for xs
    by (rule fold_keeps) simp
  have b: "channelData (fold (\<lambda>ch st. case discreteFrechetDistance st ch (Suc ch) w of
              (r, st') \<Rightarrow> st'\<lparr>frechetDistances := (frechetDistances st')[ch := r]\<rparr>) xs st)
           = channelData st" for xs w
    by (rule fold_keeps) (rule pair_step_channelData)
  show ?thesis
    by (simp add: calculateDiscreteFrechetDistances_def Let_def a b)
qed

lemma orchestrator_dataIndex [simp]:
  "dataIndex (calculateDiscreteFrechetDistances st) = dataIndex st"
proof -
  have a: "dataIndex (fold (\<lambda>ch st. st\<lparr>frechetDistances := (frechetDistances st)[ch := Fin 0]\<rparr>) xs st)
           = dataIndex st" for xs
    by (rule fold_keeps) simp
  have b: "dataIndex (fold (\<lambda>ch st. case discreteFrechetDistance st ch (Suc ch) w of
              (r, st') \<Rightarrow> st'\<lparr>frechetDistances := (frechetDistances st')[ch := r]\<rparr>) xs st)
           = dataIndex st" for xs w
    by (rule fold_keeps) (rule pair_step_dataIndex)
  show ?thesis
    by (simp add: calculateDiscreteFrechetDistances_def Let_def a b)
qed

lemma orchestrator_length [simp]:
  "length (frechetDistances (calculateDiscreteFrechetDistances st)) = length (frechetDistances st)"
proof -
  have a: "length (frechetDistances (fold (\<lambda>ch st. st\<lparr>frechetDistances := (frechetDistances st)[ch := Fin 0]\<rparr>) xs st))
           = length (frechetDistances st)" for xs
    by (rule fold_keeps [where P = "\<lambda>s. length (frechetDistances s)"]) simp
  have b: "length (frechetDistances (fold (\<lambda>ch st. case discreteFrechetDistance st ch (Suc ch) w of
              (r, st') \<Rightarrow> st'\<lparr>frechetDistances := (frechetDistances st')[ch := r]\<rparr>) xs st))
           = length (frechetDistances st)" for xs w
    by (rule fold_keeps [where P = "\<lambda>s. length (frechetDistances s)"]) (rule pair_step_length)
  show ?thesis
    by (simp add: calculateDiscreteFrechetDistances_def Let_def a b)
qed

lemma loop_tick_dataIndex:
  "dataIndex (loop_tick r st) = (dataIndex st + 1) smod HISTORY_SIZE"
  by (simp add: loop_tick_def Let_def)

lemma loop_tick_channelData:
  "channelData (loop_tick r st) = channelData (sampleChannels r st)"
  by (simp add: loop_tick_def Let_def)

lemma loop_tick_length:
  "length (frechetDistances (loop_tick r st)) = length (frechetDistances st)"
  by (simp add: loop_tick_def Let_def)

lemma run_ticks_snoc: "run_ticks (ts @ [r]) st = loop_tick r (run_ticks ts st)"
  by (simp add: run_ticks_def)

lemma run_ticks_dataIndex:
  "dataIndex (run_ticks ts setup_state) = int (length ts) mod HISTORY_SIZE"
proof (induction ts rule: rev_induct)
  case Nil
  show ?case by (simp add: run_ticks_def setup_state_def)
next
  case (snoc r ts)
  have "0 \<le> int (length ts) mod HISTORY_SIZE + 1"
    by (simp add: HISTORY_SIZE_def)
  then show ?case
    by (simp add: run_ticks_snoc loop_tick_dataIndex snoc smod_nonneg mod_simps add.commute)
qed

lemma run_ticks_length:
  "length (frechetDistances (run_ticks ts setup_state)) = NUM_CHANNELS"
  by (induction ts rule: rev_induct)
     (simp_all add: run_ticks_snoc loop_tick_length, simp add: run_ticks_def setup_state_def)

lemma zero_results:
  assumes "length (frechetDistances st) = NUM_CHANNELS"
  shows "fold (\<lambda>ch st. st\<lparr>frechetDistances := (frechetDistances st)[ch := Fin 0]\<rparr>)
           [0..<NUM_CHANNELS] st = st\<lparr>frechetDistances := replicate NUM_CHANNELS (Fin 0)\<rparr>"
proof -
  have "fold (\<lambda>ch st. st\<lparr>frechetDistances := (frechetDistances st)[ch := Fin 0]\<rparr>) [0..<n] st =
        st\<lparr>frechetDistances := replicate n (Fin 0) @ drop n (frechetDistances st)\<rparr>"
    if "n \<le> length (frechetDistances st)" for n
    using that
  proof (induction n)
    case 0
    show ?case by simp
  next
    case (Suc n)
    then have "(replicate n (Fin 0) @ drop n (frechetDistances st))[n := Fin 0] =
               replicate (Suc n) (Fin 0) @ drop (Suc n) (frechetDistances st)"
      by (simp add: list_update_append replicate_append_same upd_conv_take_nth_drop)
    with Suc show ?case by simp
  qed
  from this [of NUM_CHANNELS] assms show ?thesis by simp
qed

lemma orchestrator_low_data:
  assumes "orchestratorWindow st < 3" and "length (frechetDistances st) = NUM_CHANNELS"
  shows "calculateDiscreteFrechetDistances st =
           st\<lparr>frechetDistances := replicate NUM_CHANNELS (Fin 0)\<rparr>"
  using assms by (simp add: calculateDiscreteFrechetDistances_def Let_def zero_results)

lemma sampleChannels_fold:
  assumes "n \<le> length (channelData st)"
  shows "channelData
           (fold (\<lambda>ch st. st\<lparr>channelData := (channelData st)[ch :=
                     (channelData st ! ch)[nat (dataIndex st) := voltage (r ch)]]\<rparr>) [0..<n] st) =
         map (\<lambda>ch. if ch < n then (channelData st ! ch)[nat (dataIndex st) := voltage (r ch)]
                    else channelData st ! ch) [0..<length (channelData st)]"
    (is "channelData (fold ?g _ st) = map (?row n) _")
  using assms
proof (induction n)
  case 0
  show ?case by (simp add: map_nth)
next
  case (Suc n)
  let ?s = "fold ?g [0..<n] st"
  have di: "dataIndex ?s = dataIndex st"
    by (rule fold_keeps) simp
  have cs: "channelData ?s = map (?row n) [0..<length (channelData st)]"
    using Suc by simp
  have n: "n < length (channelData st)"
    using Suc.prems by simp
  have step: "channelData (fold ?g [0..<Suc n] st) =
              (channelData ?s)[n := (channelData ?s ! n)[nat (dataIndex st) := voltage (r n)]]"
    by (simp add: di)
  show ?case
    unfolding step cs
  proof (rule nth_equalityI)
    show "length ((map (?row n) [0..<length (channelData st)])
                    [n := (map (?row n) [0..<length (channelData st)] ! n)
                            [nat (dataIndex st) := voltage (r n)]]) =
          length (map (?row (Suc n)) [0..<length (channelData st)])"
      by simp
  next
    fix i
    assume "i < length ((map (?row n) [0..<length (channelData st)])
                    [n := (map (?row n) [0..<length (channelData st)] ! n)
                            [nat (dataIndex st) := voltage (r n)]])"
    then have i: "i < length (channelData st)"
      by simp
    show "(map (?row n) [0..<length (channelData st)])
                    [n := (map (?row n) [0..<length (channelData st)] ! n)
                            [nat (dataIndex st) := voltage (r n)]] ! i =
          map (?row (Suc n)) [0..<length (channelData st)] ! i"
    proof (cases "i = n")
      case True
      with n show ?thesis by simp
    next
      case False
      with i n show ?thesis by (simp add: less_Suc_eq)
    qed
  qed
qed

lemma sampleChannels_channelData:
  "length (channelData st) = NUM_CHANNELS \<Longrightarrow>
   channelData (sampleChannels r st) =
     map (\<lambda>ch. (channelData st ! ch)[nat (dataIndex st) := voltage (r ch)]) [0..<NUM_CHANNELS]"
  unfolding sampleChannels_def using sampleChannels_fold [of NUM_CHANNELS st r] by simp

lemma run_ticks_shape:
  "length (channelData (run_ticks ts setup_state)) = NUM_CHANNELS \<and>
   (\<forall>ch<NUM_CHANNELS. length (channelData (run_ticks ts setup_state) ! ch) = nat HISTORY_SIZE)"
proof (induction ts rule: rev_induct)
  case Nil
  show ?case by (simp add: run_ticks_def setup_state_def)
next
  case (snoc r ts)
  then show ?case
    by (simp add: run_ticks_snoc loop_tick_channelData sampleChannels_channelData)
qed

lemma ring_slot_distinct:
  fixes t k :: nat
  assumes "t < k" and "k < t + 50"
  shows "t mod 50 \<noteq> k mod 50"
proof
  assume "t mod 50 = k mod 50"
  then have "k mod 50 = t mod 50"
    by simp
  then have "50 dvd k - t"
    using assms(1) by (simp add: mod_eq_dvd_iff_nat)
  moreover have "0 < k - t"
    using assms(1) by simp
  ultimately have "50 \<le> k - t"
    by (rule dvd_imp_le)
  with assms(2) show False
    by simp
qed

lemma ring_contents:
  assumes "ch < NUM_CHANNELS" and "t < length ts" and "length ts \<le> t + 50"
  shows "channelData (run_ticks ts setup_state) ! ch ! (t mod 50) = voltage ((ts ! t) ch)"
  using assms(2,3)
proof (induction ts rule: rev_induct)
  case Nil
  then show ?case by simp
next
  case (snoc r ts)
  let ?st = "run_ticks ts setup_state"
  have shape: "length (channelData ?st) = NUM_CHANNELS"
    "length (channelData ?st ! ch) = nat HISTORY_SIZE"
    using run_ticks_shape [of ts] assms(1) by simp_all
  have di: "nat (dataIndex ?st) = length ts mod 50"
    by (simp add: run_ticks_dataIndex HISTORY_SIZE_def nat_mod_distrib)
  have row: "channelData (run_ticks (ts @ [r]) setup_state) ! ch =
             (channelData ?st ! ch)[length ts mod 50 := voltage (r ch)]"
    using assms(1) shape
    by (simp add: run_ticks_snoc loop_tick_channelData sampleChannels_channelData di)
  show ?case
  proof (cases "t = length ts")
    case True
    then show ?thesis
      using shape by (simp add: row HISTORY_SIZE_def)
  next
    case False
    with snoc.prems have lt: "t < length ts" and near: "length ts < t + 50"
      by simp_all
    then have "t mod 50 \<noteq> length ts mod 50"
      by (rule ring_slot_distinct)
    with snoc.IH lt near show ?thesis
      by (simp add: row nth_append)
  qed
qed

lemma tick_state_channelData:
  "channelData (tick_state ts r) = channelData (run_ticks (ts @ [r]) setup_state)"
  by (simp add: tick_state_def run_ticks_snoc loop_tick_channelData)

lemma tick_state_dataIndex:
  "dataIndex (tick_state ts r) = int (length ts) mod HISTORY_SIZE"
  by (simp add: tick_state_def run_ticks_dataIndex)

lemma tick_state_length:
  "length (frechetDistances (tick_state ts r)) = NUM_CHANNELS"
  by (simp add: tick_state_def run_ticks_length)

lemma ring_in_bounds:
  assumes "0 \<le> di" and "di < HISTORY_SIZE" and "0 \<le> i" and "i < aw" and "aw \<le> HISTORY_SIZE"
  shows "0 < ringDividend di aw i" and "0 \<le> ringIndex di aw i" and "ringIndex di aw i < HISTORY_SIZE"
    and "ringIndex di aw i = (di - aw + 1 + i) mod HISTORY_SIZE"
proof -
  show pos: "0 < ringDividend di aw i"
    using assms by (simp add: ringDividend_def)
  then have eq: "ringIndex di aw i = ringDividend di aw i mod HISTORY_SIZE"
    by (simp add: ringIndex_def smod_nonneg)
  then show "0 \<le> ringIndex di aw i" and "ringIndex di aw i < HISTORY_SIZE"
    by (simp_all add: HISTORY_SIZE_def)
  show "ringIndex di aw i = (di - aw + 1 + i) mod HISTORY_SIZE"
    by (simp add: eq ringDividend_def)
qed

lemma length_extractCurve: "length (extractCurve st ch aw) = nat aw"
  by (simp add: extractCurve_def)

lemma nth_extractCurve:
  "i < nat aw \<Longrightarrow>
   extractCurve st ch aw ! i = channelData st ! ch ! nat (ringIndex (dataIndex st) aw (int i))"
  by (simp add: extractCurve_def)

lemma int_mod_history: "int n mod HISTORY_SIZE = int (n mod 50)"
  by (simp add: HISTORY_SIZE_def zmod_int)

lemma extractCurve_recent:
  assumes "1 \<le> W" and "W \<le> HISTORY_SIZE" and "W \<le> int (length ts) + 1" and "ch < NUM_CHANNELS"
  shows "extractCurve (tick_state ts r) ch W =
           map (\<lambda>i. voltage (((ts @ [r]) ! (length ts + 1 - nat W + i)) ch)) [0..<nat W]"
proof (rule nth_equalityI)
  show "length (extractCurve (tick_state ts r) ch W) =
        length (map (\<lambda>i. voltage (((ts @ [r]) ! (length ts + 1 - nat W + i)) ch)) [0..<nat W])"
    by (simp add: length_extractCurve)
next
  fix i
  assume "i < length (extractCurve (tick_state ts r) ch W)"
  then have i: "i < nat W"
    by (simp add: length_extractCurve)
  let ?t = "length ts + 1 - nat W + i"
  have di: "0 \<le> int (length ts) mod HISTORY_SIZE" "int (length ts) mod HISTORY_SIZE < HISTORY_SIZE"
    by (simp_all add: HISTORY_SIZE_def)
  have "ringIndex (int (length ts) mod HISTORY_SIZE) W (int i) =
        (int (length ts) mod HISTORY_SIZE - W + 1 + int i) mod HISTORY_SIZE"
    using di i assms by (intro ring_in_bounds(4)) simp_all
  also have "\<dots> = (int (length ts) mod HISTORY_SIZE + (1 + int i - W)) mod HISTORY_SIZE"
    by (simp add: algebra_simps)
  also have "\<dots> = (int (length ts) + (1 + int i - W)) mod HISTORY_SIZE"
    by (rule mod_add_left_eq)
  also have "int (length ts) + (1 + int i - W) = int ?t"
    using assms i by simp
  finally have "ringIndex (int (length ts) mod HISTORY_SIZE) W (int i) = int ?t mod HISTORY_SIZE" .
  then have idx: "nat (ringIndex (int (length ts) mod HISTORY_SIZE) W (int i)) = ?t mod 50"
    by (simp only: int_mod_history nat_int)
  have "channelData (run_ticks (ts @ [r]) setup_state) ! ch ! (?t mod 50) =
        voltage (((ts @ [r]) ! ?t) ch)"
    using assms i by (intro ring_contents) (simp_all add: HISTORY_SIZE_def)
  then show "extractCurve (tick_state ts r) ch W ! i =
        map (\<lambda>i. voltage (((ts @ [r]) ! (length ts + 1 - nat W + i)) ch)) [0..<nat W] ! i"
    using i by (simp add: nth_extractCurve tick_state_channelData tick_state_dataIndex idx)
qed

lemma loop_tick_tick_state:
  "loop_tick r (run_ticks earlier setup_state) =
     (calculateDiscreteFrechetDistances (tick_state earlier r))
       \<lparr>dataIndex := (dataIndex (tick_state earlier r) + 1) smod HISTORY_SIZE\<rparr>"
  by (simp add: loop_tick_def tick_state_def Let_def)

lemma discreteFrechetDistance_fst:
  "fst (discreteFrechetDistance st ch1 ch2 w) =
     fst (frechetEngine (extractCurve st ch1 (actualWindow w))
            (extractCurve st ch2 (actualWindow w)) (actualWindow w) (dpTable st))"
  by (simp add: discreteFrechetDistance_def Let_def split: prod.splits)

lemma discreteFrechetDistance_result:
  assumes "1 \<le> actualWindow w"
  shows "fst (discreteFrechetDistance st ch1 ch2 w) =
           Fin (F_spec (extractCurve st ch1 (actualWindow w)) (extractCurve st ch2 (actualWindow w))
                  (nat (actualWindow w - 1)) (nat (actualWindow w - 1)))"
  unfolding discreteFrechetDistance_fst using assms by (rule frechetEngine_value)

lemma discreteFrechetDistance_same_data:
  assumes "channelData s = channelData st" and "dataIndex s = dataIndex st"
  shows "fst (discreteFrechetDistance s ch1 ch2 w) = fst (discreteFrechetDistance st ch1 ch2 w)"
proof -
  have curves: "extractCurve s ch aw = extractCurve st ch aw" for ch aw
    using assms by (simp add: extractCurve_def)
  show ?thesis
    unfolding discreteFrechetDistance_fst curves
    by (cases "1 \<le> actualWindow w") (simp_all add: frechetEngine_value frechetEngine_empty)
qed

lemma pair_step_results:
  "frechetDistances (case discreteFrechetDistance st ch ch' w of
                (r, st') \<Rightarrow> st'\<lparr>frechetDistances := (frechetDistances st')[ch := r]\<rparr>) =
   (frechetDistances st)[ch := fst (discreteFrechetDistance st ch ch' w)]"
  using discreteFrechetDistance_state [of st ch ch' w]
  by (cases "discreteFrechetDistance st ch ch' w") simp

lemma pair_fold_results:
  assumes "n \<le> length (frechetDistances st)" and "ch < n"
  shows "frechetDistances
           (fold (\<lambda>ch st. case discreteFrechetDistance st ch (Suc ch) w of
                    (r, st') \<Rightarrow> st'\<lparr>frechetDistances := (frechetDistances st')[ch := r]\<rparr>)
              [0..<n] st) ! ch =
         fst (discreteFrechetDistance st ch (Suc ch) w)"
    (is "frechetDistances (fold ?g _ st) ! ch = _")
  using assms
proof (induction n)
  case 0
  then show ?case by simp
next
  case (Suc n)
  let ?s = "fold ?g [0..<n] st"
  have cd: "channelData ?s = channelData st"
    by (rule fold_keeps) (rule pair_step_channelData)
  have di: "dataIndex ?s = dataIndex st"
    by (rule fold_keeps) (rule pair_step_dataIndex)
  have len: "length (frechetDistances ?s) = length (frechetDistances st)"
    by (rule fold_keeps [where P = "\<lambda>s. length (frechetDistances s)"]) (rule pair_step_length)
  have step: "frechetDistances (fold ?g [0..<Suc n] st) =
              (frechetDistances ?s)[n := fst (discreteFrechetDistance ?s n (Suc n) w)]"
    by (simp add: pair_step_results)
  show ?case
  proof (cases "ch = n")
    case True
    with Suc.prems len show ?thesis
      unfolding step by (simp add: discreteFrechetDistance_same_data [OF cd di])
  next
    case False
    with Suc.prems have "ch < n" by simp
    with Suc.IH Suc.prems False show ?thesis
      unfolding step by simp
  qed
qed

lemma orchestrator_results:
  assumes "3 \<le> orchestratorWindow st" and "length (frechetDistances st) = NUM_CHANNELS"
    and "Suc ch < NUM_CHANNELS"
  shows "frechetDistances (calculateDiscreteFrechetDistances st) ! ch =
           fst (discreteFrechetDistance st ch (Suc ch) (orchestratorWindow st))"
proof -
  have "ch < NUM_CHANNELS - 1" "NUM_CHANNELS - 1 \<le> length (frechetDistances st)"
    "ch \<noteq> NUM_CHANNELS - 1"
    using assms by simp_all
  with assms(1) pair_fold_results [of "NUM_CHANNELS - 1" st ch "orchestratorWindow st"]
  show ?thesis
    by (simp add: calculateDiscreteFrechetDistances_def Let_def)
qed

lemma tick_state_window:
  assumes "length earlier < nat HISTORY_SIZE"
  shows "orchestratorWindow (tick_state earlier r) =
           min FRECHET_WINDOW (min 20 (int (length earlier) + 1))"
proof -
  have "int (length earlier) mod HISTORY_SIZE = int (length earlier)"
    using assms by (simp add: HISTORY_SIZE_def)
  then show ?thesis
    by (simp add: orchestratorWindow_def tick_state_dataIndex)
qed

subsection \<open>The window of one distance computation\<close>

text \<open>
  Claim C2, as the specification states it: the effective window of a distance computation is
  \<open>min(requestedW, maxWindowCapacity, samplesCollectedSoFar)\<close>, so that a request of 50 with 10
  samples collected yields 10. \<open>discreteFrechetDistance\<close> does not know how many samples were
  collected: on the tenth tick a request of 50 extracts curves of 20 points.
\<close>

theorem requested_window_counterexample:
  "int (length (extractCurve (tick_state (replicate 9 steady_reading) steady_reading) 0
                  (actualWindow 50))) \<noteq>
   min 50 (min FRECHET_WINDOW (int (length (replicate 9 steady_reading @ [steady_reading]))))"
  by (simp add: length_extractCurve actualWindow_def FRECHET_WINDOW_def HISTORY_SIZE_def)

text \<open>
  Claim C2, amended. Write \<open>W = min(requestedW, FRECHET_WINDOW, HISTORY_SIZE)\<close>.
  \<^item> For every requested window length of at least 1, \<open>discreteFrechetDistance\<close> works on the
    effective window \<open>W\<close>, whatever the number of samples collected: it extracts, in any
    state, curves of \<open>W\<close> points and returns the value of the recurrence of these curves at
    \<open>(W-1, W-1)\<close>.
  \<^item> The clamp to the number of samples is the orchestrator's. On a tick at which \<open>n\<close>
    samples have been collected, \<open>3 \<le> n \<le> HISTORY_SIZE\<close>, \<open>calculateDiscreteFrechetDistances\<close>
    stores for each adjacent pair of channels the result of \<open>discreteFrechetDistance\<close> for the
    request \<open>min(FRECHET_WINDOW, 20, n)\<close>; this request is the effective window, and the
    result is the value of the recurrence of the last \<open>min(FRECHET_WINDOW, 20, n)\<close> samples
    of the two channels.
  \<^item> For every request and every write cursor in \<open>[0, HISTORY_SIZE)\<close>, every ring-buffer index
    read by the extraction lies in \<open>[0, HISTORY_SIZE)\<close>.
\<close>

theorem effective_window_clamp:
  "(1 \<le> requestedW \<longrightarrow>
      int (length (extractCurve st ch1 (min requestedW (min FRECHET_WINDOW HISTORY_SIZE)))) =
        min requestedW (min FRECHET_WINDOW HISTORY_SIZE) \<and>
      int (length (extractCurve st ch2 (min requestedW (min FRECHET_WINDOW HISTORY_SIZE)))) =
        min requestedW (min FRECHET_WINDOW HISTORY_SIZE) \<and>
      fst (discreteFrechetDistance st ch1 ch2 requestedW) =
        Fin (F_spec (extractCurve st ch1 (min requestedW (min FRECHET_WINDOW HISTORY_SIZE)))
                    (extractCurve st ch2 (min requestedW (min FRECHET_WINDOW HISTORY_SIZE)))
                    (nat (min requestedW (min FRECHET_WINDOW HISTORY_SIZE) - 1))
                    (nat (min requestedW (min FRECHET_WINDOW HISTORY_SIZE) - 1)))) \<and>
   (3 \<le> int (length earlier) + 1 \<and> int (length earlier) + 1 \<le> HISTORY_SIZE \<and>
    Suc ch < NUM_CHANNELS \<longrightarrow>
      frechetDistances (calculateDiscreteFrechetDistances (tick_state earlier r)) ! ch =
        fst (discreteFrechetDistance (tick_state earlier r) ch (Suc ch)
               (min FRECHET_WINDOW (min 20 (int (length earlier) + 1)))) \<and>
      frechetDistances (calculateDiscreteFrechetDistances (tick_state earlier r)) ! ch =
        Fin (F_spec
               (map (\<lambda>i. voltage (((earlier @ [r]) !
                       (length earlier + 1 -
                          nat (min FRECHET_WINDOW (min 20 (int (length earlier) + 1))) + i)) ch))
                  [0..<nat (min FRECHET_WINDOW (min 20 (int (length earlier) + 1)))])
               (map (\<lambda>i. voltage (((earlier @ [r]) !
                       (length earlier + 1 -
                          nat (min FRECHET_WINDOW (min 20 (int (length earlier) + 1))) + i)) (Suc ch)))
                  [0..<nat (min FRECHET_WINDOW (min 20 (int (length earlier) + 1)))])
               (nat (min FRECHET_WINDOW (min 20 (int (length earlier) + 1)) - 1))
               (nat (min FRECHET_WINDOW (min 20 (int (length earlier) + 1)) - 1)))) \<and>
   (0 \<le> di \<and> di < HISTORY_SIZE \<and> 0 \<le> i \<and>
    i < min requestedW (min FRECHET_WINDOW HISTORY_SIZE) \<longrightarrow>
      0 \<le> ringIndex di (min requestedW (min FRECHET_WINDOW HISTORY_SIZE)) i \<and>
      ringIndex di (min requestedW (min FRECHET_WINDOW HISTORY_SIZE)) i < HISTORY_SIZE)"
proof (intro conjI impI)
  let ?W = "min requestedW (min FRECHET_WINDOW HISTORY_SIZE)"
  have aw: "actualWindow requestedW = ?W"
    by (simp add: actualWindow_def)
  {
    assume req: "1 \<le> requestedW"
    then have pos: "1 \<le> ?W"
      by (simp add: FRECHET_WINDOW_def HISTORY_SIZE_def)
    then show "int (length (extractCurve st ch1 ?W)) = ?W"
      and "int (length (extractCurve st ch2 ?W)) = ?W"
      by (simp_all add: length_extractCurve)
    from pos have "1 \<le> actualWindow requestedW"
      by (simp only: aw)
    then show "fst (discreteFrechetDistance st ch1 ch2 requestedW) =
        Fin (F_spec (extractCurve st ch1 ?W) (extractCurve st ch2 ?W) (nat (?W - 1)) (nat (?W - 1)))"
      by (simp only: discreteFrechetDistance_result aw)
  }
  let ?V = "min FRECHET_WINDOW (min 20 (int (length earlier) + 1))"
  let ?st = "tick_state earlier r"
  {
    assume tick: "3 \<le> int (length earlier) + 1 \<and> int (length earlier) + 1 \<le> HISTORY_SIZE \<and>
                  Suc ch < NUM_CHANNELS"
    then have early: "length earlier < nat HISTORY_SIZE"
      by (simp add: HISTORY_SIZE_def)
    have win: "orchestratorWindow ?st = ?V"
      using early by (rule tick_state_window)
    have V: "3 \<le> ?V" "?V \<le> HISTORY_SIZE" "?V \<le> int (length earlier) + 1"
      using tick by (simp_all add: FRECHET_WINDOW_def HISTORY_SIZE_def)
    have awV: "actualWindow ?V = ?V"
      by (simp add: actualWindow_def FRECHET_WINDOW_def HISTORY_SIZE_def)
    have "frechetDistances (calculateDiscreteFrechetDistances ?st) ! ch =
          fst (discreteFrechetDistance ?st ch (Suc ch) (orchestratorWindow ?st))"
      using V(1) tick_state_length tick by (intro orchestrator_results) (simp_all only: win)
    then show stored: "frechetDistances (calculateDiscreteFrechetDistances ?st) ! ch =
          fst (discreteFrechetDistance ?st ch (Suc ch) ?V)"
      by (simp only: win)
    have one: "1 \<le> ?V"
      using V(1) by linarith
    have chs: "ch < NUM_CHANNELS" "Suc ch < NUM_CHANNELS"
      using tick by simp_all
    have "fst (discreteFrechetDistance ?st ch (Suc ch) ?V) =
          Fin (F_spec (extractCurve ?st ch ?V) (extractCurve ?st (Suc ch) ?V)
                 (nat (?V - 1)) (nat (?V - 1)))"
      using one discreteFrechetDistance_result [of ?V ?st ch "Suc ch"] by (simp only: awV)
    then show "frechetDistances (calculateDiscreteFrechetDistances ?st) ! ch =
        Fin (F_spec
               (map (\<lambda>i. voltage (((earlier @ [r]) ! (length earlier + 1 - nat ?V + i)) ch))
                  [0..<nat ?V])
               (map (\<lambda>i. voltage (((earlier @ [r]) ! (length earlier + 1 - nat ?V + i)) (Suc ch)))
                  [0..<nat ?V])
               (nat (?V - 1)) (nat (?V - 1)))"
      by (simp only: stored extractCurve_recent [OF one V(2) V(3) chs(1)]
            extractCurve_recent [OF one V(2) V(3) chs(2)])
  }
  {
    assume idx: "0 \<le> di \<and> di < HISTORY_SIZE \<and> 0 \<le> i \<and> i < ?W"
    have le: "?W \<le> HISTORY_SIZE"
      by simp
    from idx le show "0 \<le> ringIndex di ?W i"
      by (intro ring_in_bounds(2)) simp_all
    from idx le show "ringIndex di ?W i < HISTORY_SIZE"
      by (intro ring_in_bounds(3)) simp_all
  }
qed

theorem effective_window_clamp_witness:
  "int (length (extractCurve setup_state 0 20)) = 20 \<and>
   fst (discreteFrechetDistance setup_state 0 1 50) =
     Fin (F_spec (extractCurve setup_state 0 20) (extractCurve setup_state 1 20) 19 19) \<and>
   frechetDistances
     (calculateDiscreteFrechetDistances (tick_state (replicate 9 steady_reading) steady_reading)) ! 0 =
     fst (discreteFrechetDistance (tick_state (replicate 9 steady_reading) steady_reading) 0 1 10) \<and>
   0 \<le> ringIndex 9 20 0 \<and> ringIndex 9 20 0 < HISTORY_SIZE"
  using effective_window_clamp
          [of 50 setup_state 0 1 "replicate 9 steady_reading" 0 steady_reading 9 0]
  by (simp add: HISTORY_SIZE_def FRECHET_WINDOW_def NUM_CHANNELS_def)

subsection \<open>The extracted curve\<close>

text \<open>
  Claim C3. On the tick that follows the ticks \<open>earlier\<close>, for a window \<open>W\<close> that is at most
  the capacity of the ring buffer and at most the number of samples collected, the curve
  extracted for a channel is the last \<open>W\<close> samples written to it, oldest first: the sample
  written \<open>W - 1\<close> ticks ago comes first and the sample of this tick last. For every write
  cursor \<open>di\<close> of the ring, the sum that is reduced modulo \<open>HISTORY_SIZE\<close> is positive, so C's
  remainder is not negative, and the index lies in \<open>[0, HISTORY_SIZE)\<close>.
\<close>

theorem extractCurve_most_recent:
  assumes "1 \<le> W" and "W \<le> HISTORY_SIZE" and "W \<le> int (length earlier) + 1"
    and "ch < NUM_CHANNELS"
  shows "extractCurve (tick_state earlier r) ch W =
           map (\<lambda>i. voltage (((earlier @ [r]) ! (length earlier + 1 - nat W + i)) ch))
             [0..<nat W] \<and>
         (\<forall>di i. 0 \<le> di \<and> di < HISTORY_SIZE \<and> 0 \<le> i \<and> i < W \<longrightarrow>
            0 < ringDividend di W i \<and> 0 \<le> ringIndex di W i \<and> ringIndex di W i < HISTORY_SIZE)"
  using assms ring_in_bounds(1-3) [of _ _ W]
  by (simp add: extractCurve_recent)

theorem extractCurve_most_recent_witness:
  "extractCurve (tick_state [ramp_reading, steady_reading] ramp_reading) 1 2 =
     [voltage (steady_reading 1), voltage (ramp_reading 1)]"
  using extractCurve_most_recent [of 2 "[ramp_reading, steady_reading]" 1 ramp_reading]
  by (simp add: HISTORY_SIZE_def NUM_CHANNELS_def numeral_2_eq_2)

subsection \<open>The low-data short circuit\<close>

text \<open>
  Claim C4. On a tick where the orchestrator's window is below 3, every entry of the result
  array is set to \<open>0.0\<close> and the engine is not invoked: the tick leaves the state as it was
  but for the zeroed results, and in particular leaves \<open>dpTable\<close>, which every invocation of
  the engine with a positive window writes, untouched.
\<close>

theorem orchestrator_short_circuit:
  assumes "orchestratorWindow st < 3" and "length (frechetDistances st) = NUM_CHANNELS"
  shows "calculateDiscreteFrechetDistances st =
           st\<lparr>frechetDistances := replicate NUM_CHANNELS (Fin 0)\<rparr>"
  using assms by (rule orchestrator_low_data)

theorem orchestrator_short_circuit_witness:
  "calculateDiscreteFrechetDistances
     (setup_state\<lparr>frechetDistances := [Fin 1, Fin 2, Fin 3, Fin 4], dataIndex := 1\<rparr>) =
   setup_state\<lparr>frechetDistances := replicate NUM_CHANNELS (Fin 0), dataIndex := 1\<rparr>"
  using orchestrator_short_circuit
          [of "setup_state\<lparr>frechetDistances := [Fin 1, Fin 2, Fin 3, Fin 4], dataIndex := 1\<rparr>"]
  by (simp add: orchestratorWindow_def FRECHET_WINDOW_def NUM_CHANNELS_def)

subsection \<open>The window after the ring buffer has wrapped\<close>

text \<open>
  Claim C5 says that once \<open>HISTORY_SIZE\<close> samples have been pushed the count that bounds the
  window stays at the capacity, so that the window stays full. The orchestrator takes
  \<open>dataIndex + 1\<close> for the count, and \<open>dataIndex\<close> wraps to \<open>0\<close>: on the 50th tick the window is
  20, on the 51st it is 1 and the results are the placeholder \<open>0.0\<close>, although the readings of
  adjacent channels differ.
\<close>

theorem window_collapses_after_wrap:
  "orchestratorWindow (tick_state (replicate 49 ramp_reading) ramp_reading) = 20 \<and>
   orchestratorWindow (tick_state (replicate 50 ramp_reading) ramp_reading) = 1 \<and>
   frechetDistances
     (calculateDiscreteFrechetDistances (tick_state (replicate 50 ramp_reading) ramp_reading)) =
   replicate NUM_CHANNELS (Fin 0)"
proof -
  have w49: "orchestratorWindow (tick_state (replicate 49 ramp_reading) ramp_reading) = 20"
    by (simp add: orchestratorWindow_def tick_state_dataIndex FRECHET_WINDOW_def HISTORY_SIZE_def)
  have w50: "orchestratorWindow (tick_state (replicate 50 ramp_reading) ramp_reading) = 1"
    by (simp add: orchestratorWindow_def tick_state_dataIndex FRECHET_WINDOW_def HISTORY_SIZE_def)
  then have "orchestratorWindow (tick_state (replicate 50 ramp_reading) ramp_reading) < 3"
    by simp
  then have "calculateDiscreteFrechetDistances (tick_state (replicate 50 ramp_reading) ramp_reading) =
        (tick_state (replicate 50 ramp_reading) ramp_reading)
          \<lparr>frechetDistances := replicate NUM_CHANNELS (Fin 0)\<rparr>"
    using tick_state_length by (rule orchestrator_low_data)
  with w49 w50 show ?thesis
    by simp
qed

end
